theory Spec2Isabelle
  imports Main "HOL-Library.Sublist" "HOL-Library.AList"
begin

section \<open>The gRPC handler of graphql-mesh: schema derivation from a protobuf tree\<close>

text \<open>
  The development embeds \<^verbatim>\<open>packages/handlers/grpc/src/index.ts\<close>: the handler's
  \<^verbatim>\<open>getMeshSource\<close>, its inner functions \<^verbatim>\<open>getTypeName\<close> and \<^verbatim>\<open>visit\<close>, and the
  table \<^verbatim>\<open>SCALARS\<close>. JavaScript strings are modelled as \<^typ>\<open>string\<close> (the ASCII
  range is what protobuf identifiers use), objects used as dictionaries as association
  lists in key order (\<^verbatim>\<open>Object.keys\<close> order), thrown errors and rejected promises as the
  left injection of a sum.
\<close>

subsection \<open>JavaScript string operations used by the source\<close>

definition is_upper :: "char \<Rightarrow> bool" where
  "is_upper c = (let n = (of_char c :: nat) in 65 \<le> n \<and> n \<le> 90)"

definition is_lower :: "char \<Rightarrow> bool" where
  "is_lower c = (let n = (of_char c :: nat) in 97 \<le> n \<and> n \<le> 122)"

definition is_digit :: "char \<Rightarrow> bool" where
  "is_digit c = (let n = (of_char c :: nat) in 48 \<le> n \<and> n \<le> 57)"

definition toLowerChar :: "char \<Rightarrow> char" where
  "toLowerChar c = (if is_upper c then char_of (of_char c + (32 :: nat)) else c)"

definition toUpperChar :: "char \<Rightarrow> char" where
  "toUpperChar c = (if is_lower c then char_of (of_char c - (32 :: nat)) else c)"

text \<open>\<^verbatim>\<open>s.toLowerCase()\<close>, on ASCII.\<close>

definition toLowerCase :: "string \<Rightarrow> string" where
  "toLowerCase s = map toLowerChar s"

text \<open>\<^verbatim>\<open>s.startsWith(p)\<close>.\<close>

definition startsWith :: "string \<Rightarrow> string \<Rightarrow> bool" where
  "startsWith s p = (take (length p) s = p)"

text \<open>
  \<^verbatim>\<open>s.replace(pat, rep)\<close> with a string pattern: only the first occurrence of
  \<^verbatim>\<open>pat\<close> is replaced, wherever it stands in \<^verbatim>\<open>s\<close>. (The source's replacement is
  the empty string, which has none of the \<^verbatim>\<open>$\<close> patterns.)
\<close>

fun str_replace :: "string \<Rightarrow> string \<Rightarrow> string \<Rightarrow> string" where
  "str_replace pat rep [] = (if pat = [] then rep else [])"
| "str_replace pat rep (c # cs) =
     (if take (length pat) (c # cs) = pat then rep @ drop (length pat) (c # cs)
      else c # str_replace pat rep cs)"

text \<open>\<^verbatim>\<open>s.split(d)\<close> for a one-character separator, and \<^verbatim>\<open>parts.join(sep)\<close>.\<close>

fun str_split :: "char \<Rightarrow> string \<Rightarrow> string list" where
  "str_split d [] = [[]]"
| "str_split d (c # cs) =
     (if c = d then [] # str_split d cs
      else (case str_split d cs of [] \<Rightarrow> [[c]] | w # ws \<Rightarrow> (c # w) # ws))"

fun str_join :: "string \<Rightarrow> string list \<Rightarrow> string" where
  "str_join sep [] = []"
| "str_join sep [w] = w"
| "str_join sep (w # v # ws) = w @ sep @ str_join sep (v # ws)"

subsection \<open>The case conversions\<close>

text \<open>
  The source imports \<^verbatim>\<open>camelCase\<close> from the package camel-case and \<^verbatim>\<open>pascalCase\<close>
  from the package pascal-case. Neither is part of the repository, so the functions of
  the handler take them as a parameter: every general theorem below holds for any pair
  of conversions.
\<close>

record caselib =
  pascalCase :: "string \<Rightarrow> string"
  camelCase :: "string \<Rightarrow> string"

text \<open>
  Modelled from the spec: the conversions to upper camel case and to lower camel case,
  which the packages pascal-case and camel-case (absent from the sources) provide. The
  model is used for the concrete scenarios only. It follows the packages' behaviour on
  ASCII input: both go through \<^verbatim>\<open>noCase\<close>, which marks a word boundary between a
  lower-case letter or digit and an upper-case letter, and before the last capital of a
  run of capitals followed by a lower-case letter, replaces every run of characters
  that are not letters or digits by one boundary, trims the boundaries at both ends,
  and transforms each word by its index.
\<close>

definition NUL :: char where
  "NUL = CHR 0x00"

fun split_lower_upper :: "string \<Rightarrow> string" where
  "split_lower_upper (a # b # cs) =
     (if (is_lower a \<or> is_digit a) \<and> is_upper b then a # NUL # b # split_lower_upper cs
      else a # split_lower_upper (b # cs))"
| "split_lower_upper cs = cs"

fun split_upper_word :: "string \<Rightarrow> string" where
  "split_upper_word (a # b # c # cs) =
     (if is_upper a \<and> is_upper b \<and> is_lower c then a # NUL # b # c # split_upper_word cs
      else a # split_upper_word (b # c # cs))"
| "split_upper_word cs = cs"

definition is_alnum :: "char \<Rightarrow> bool" where
  "is_alnum c = (is_upper c \<or> is_lower c \<or> is_digit c)"

function strip_non_alnum :: "string \<Rightarrow> string" where
  "strip_non_alnum [] = []"
| "strip_non_alnum (c # cs) =
     (if is_alnum c then c # strip_non_alnum cs
      else NUL # strip_non_alnum (dropWhile (\<lambda>x. \<not> is_alnum x) cs))"
  by pat_completeness auto
termination
  by (relation "measure length") (auto simp: length_dropWhile_le less_Suc_eq_le)

definition trim_NUL :: "string \<Rightarrow> string" where
  "trim_NUL s = rev (dropWhile (\<lambda>x. x = NUL) (rev (dropWhile (\<lambda>x. x = NUL) s)))"

definition noCase_parts :: "string \<Rightarrow> string list" where
  "noCase_parts input =
     str_split NUL (trim_NUL (strip_non_alnum (split_upper_word (split_lower_upper input))))"

definition pascalCaseTransform :: "string \<Rightarrow> nat \<Rightarrow> string" where
  "pascalCaseTransform input index =
     (case input of
        [] \<Rightarrow> []
      | firstChar # rest \<Rightarrow>
          (if index > 0 \<and> is_digit firstChar then CHR ''_'' # firstChar # toLowerCase rest
           else toUpperChar firstChar # toLowerCase rest))"

definition camelCaseTransform :: "string \<Rightarrow> nat \<Rightarrow> string" where
  "camelCaseTransform input index =
     (if index = 0 then toLowerCase input else pascalCaseTransform input index)"

definition noCase :: "(string \<Rightarrow> nat \<Rightarrow> string) \<Rightarrow> string \<Rightarrow> string" where
  "noCase transform input =
     concat (map (\<lambda>(index, part). transform part index) (enumerate 0 (noCase_parts input)))"

definition change_case :: caselib where
  "change_case = \<lparr> pascalCase = noCase pascalCaseTransform, camelCase = noCase camelCaseTransform \<rparr>"

subsection \<open>Configuration and the protocol tree\<close>

text \<open>
  \<^verbatim>\<open>config.protoFilePath\<close> is a string or an object \<^verbatim>\<open>{file, load?}\<close>;
  \<^verbatim>\<open>load.includeDirs\<close> is optional, and at run time it may hold a value that is not an array.
\<close>

datatype dirsValue = DirsAbsent | DirsArray "string list" | DirsString string

record loadOptions =
  includeDirs :: dirsValue

datatype protoFilePath = FilePath string | FileObject (pfile: string) (pload: "loadOptions option")

record config =
  endpoint :: string
  protoFilePath :: protoFilePath
  serviceName :: string
  packageName :: string
  requestTimeout :: "nat option"

text \<open>
  A node of \<^verbatim>\<open>root.toJSON()\<close> is an untagged object: the visitor asks which of the keys
  \<^verbatim>\<open>values\<close>, \<^verbatim>\<open>fields\<close>, \<^verbatim>\<open>methods\<close>, \<^verbatim>\<open>nested\<close> it has, so each is an optional
  attribute here. The lists are in \<^verbatim>\<open>Object.keys\<close> order.
\<close>

record protoField =
  ptype :: string
  prule :: "string option"

record protoMethod =
  requestType :: string
  responseType :: string
  responseStream :: bool

datatype node =
  Node (nvalues: "(string \<times> int) list option")
       (nfields: "(string \<times> protoField) list option")
       (nmethods: "(string \<times> protoMethod) list option")
       (nnested: "(string \<times> node) list option")

subsection \<open>The schema composer\<close>

text \<open>
  Modelled from the spec: the schema-construction context (the package graphql-compose,
  absent from the sources), as far as the handler uses it: a registry of named types,
  where creating a type under a name that exists replaces it, and the three root types,
  where \<^verbatim>\<open>addFields\<close> sets each field under its key (a key that exists keeps its place
  and takes the new value). A field's \<^verbatim>\<open>type\<close> given as a function is kept unevaluated
  until the schema is built.
\<close>

datatype jsvalue = Undefined | Str string | Obj "(string \<times> jsvalue) list"

datatype typeRef =
  Literal string
  | TypeNameOf string bool
  | FieldTypeOf string bool "string option"

record argConfig =
  atype :: typeRef
  defaultValue :: jsvalue

text \<open>
  The resolver functions the source writes, by what they close over: a unary call of
  the method \<^verbatim>\<open>methodName\<close> of the client made for the service at a path, the
  identity on the payload, and the constant status object.
\<close>

datatype resolver =
  UnaryCall string string
  | Payload
  | OnlineStatus

datatype subscriber = StreamCall string string

record fieldConfig =
  ftype :: typeRef
  args :: "(string \<times> argConfig) list"
  resolve :: resolver
  subscribe :: "subscriber option"

datatype typeComposer =
  ScalarTC
  | EnumTC "(string \<times> string) list"
  | ObjectTC "(string \<times> typeRef) list"
  | InputTC "(string \<times> typeRef) list"

record composer =
  types :: "(string \<times> typeComposer) list"
  Query :: "(string \<times> fieldConfig) list"
  Mutation :: "(string \<times> fieldConfig) list"
  Subscription :: "(string \<times> fieldConfig) list"

definition isEnumType :: "composer \<Rightarrow> string \<Rightarrow> bool" where
  "isEnumType sc n = (case map_of (types sc) n of Some (EnumTC _) \<Rightarrow> True | _ \<Rightarrow> False)"

definition createTC :: "string \<Rightarrow> typeComposer \<Rightarrow> composer \<Rightarrow> composer" where
  "createTC n tc sc = sc\<lparr> types := AList.update n tc (types sc) \<rparr>"

definition addTypeField :: "string \<Rightarrow> string \<Rightarrow> typeRef \<Rightarrow> composer \<Rightarrow> composer" where
  "addTypeField n fieldName t sc =
     (case map_of (types sc) n of
        Some (ObjectTC fs) \<Rightarrow> createTC n (ObjectTC (AList.update fieldName t fs)) sc
      | Some (InputTC fs) \<Rightarrow> createTC n (InputTC (AList.update fieldName t fs)) sc
      | _ \<Rightarrow> sc)"

text \<open>
  How a resolver answers: \<^verbatim>\<open>resolve(source, args)\<close>, against the remote client (a
  function of the service path, the method name and the input).
\<close>

fun run_resolve ::
  "(string \<Rightarrow> string \<Rightarrow> jsvalue \<Rightarrow> jsvalue) \<Rightarrow> resolver \<Rightarrow> jsvalue \<Rightarrow> (string \<times> jsvalue) list \<Rightarrow> jsvalue"
where
  "run_resolve client (UnaryCall servicePath methodName) source as =
     client servicePath methodName (case map_of as ''input'' of Some v \<Rightarrow> v | None \<Rightarrow> Undefined)"
| "run_resolve client Payload payload as = payload"
| "run_resolve client OnlineStatus source as = Obj [(''status'', Str ''online'')]"

subsection \<open>\<^verbatim>\<open>SCALARS\<close> and \<^verbatim>\<open>getTypeName\<close>\<close>

definition SCALARS :: "(string \<times> string) list" where
  "SCALARS =
    [(''int32'', ''Int''),
     (''int64'', ''BigInt''),
     (''float'', ''Float''),
     (''double'', ''Float''),
     (''string'', ''String''),
     (''bool'', ''Boolean'')]"

text \<open>
  \<^verbatim>\<open>typePath in SCALARS\<close> is JavaScript's \<^verbatim>\<open>in\<close>: it holds for the six keys of the
  object literal and also for the property names an object literal inherits from
  \<^verbatim>\<open>Object.prototype\<close>. For an inherited name, \<^verbatim>\<open>SCALARS[typePath]\<close> is the inherited
  property (a function or an object), not a type name.
\<close>

definition Object_prototype_keys :: "string list" where
  "Object_prototype_keys =
    [''constructor'', ''hasOwnProperty'', ''isPrototypeOf'', ''propertyIsEnumerable'',
     ''toLocaleString'', ''toString'', ''valueOf'', ''__proto__'',
     ''__defineGetter__'', ''__defineSetter__'', ''__lookupGetter__'', ''__lookupSetter__'']"

definition in_SCALARS :: "string \<Rightarrow> bool" where
  "in_SCALARS typePath =
     (typePath \<in> set (map fst SCALARS) \<or> typePath \<in> set Object_prototype_keys)"

text \<open>
  What \<^verbatim>\<open>getTypeName\<close> returns: a type name, or the property inherited under a name;
  the third case is the template string around such a property (see \<open>resolveType\<close>).
\<close>

datatype tname = TypeName string | Inherited string | ListOfInherited string

definition SCALARS_at :: "string \<Rightarrow> tname" where
  "SCALARS_at typePath =
     (case map_of SCALARS typePath of Some n \<Rightarrow> TypeName n | None \<Rightarrow> Inherited typePath)"

definition baseTypeName :: "caselib \<Rightarrow> config \<Rightarrow> string \<Rightarrow> string" where
  "baseTypeName L config typePath =
     pascalCase L
       (str_join ''_'' (str_split CHR ''.'' (str_replace (packageName config @ ''.'') [] typePath)))"

definition getTypeName :: "caselib \<Rightarrow> config \<Rightarrow> composer \<Rightarrow> string \<Rightarrow> bool \<Rightarrow> tname" where
  "getTypeName L config schemaComposer typePath isInput =
     (if in_SCALARS typePath then SCALARS_at typePath
      else if isInput \<and> \<not> isEnumType schemaComposer (baseTypeName L config typePath)
        then TypeName (baseTypeName L config typePath @ ''Input'')
        else TypeName (baseTypeName L config typePath))"

subsection \<open>\<^verbatim>\<open>visit\<close>\<close>

text \<open>The type name of an enum or message node (the same lines in both branches).\<close>

definition typeName :: "caselib \<Rightarrow> config \<Rightarrow> string \<Rightarrow> string \<Rightarrow> string" where
  "typeName L config name currentPath =
     (if currentPath \<noteq> packageName config
      then pascalCase L (str_join ''_'' (str_split CHR ''.'' currentPath) @ ''_'' @ name)
      else name)"

definition visitEnum ::
  "caselib \<Rightarrow> config \<Rightarrow> (string \<times> int) list \<Rightarrow> string \<Rightarrow> string \<Rightarrow> composer \<Rightarrow> composer"
where
  "visitEnum L config values name currentPath sc =
     createTC (typeName L config name currentPath)
       (EnumTC (fold (\<lambda>(key, _) vs. AList.update key key vs) values [])) sc"

definition visitMessage ::
  "caselib \<Rightarrow> config \<Rightarrow> (string \<times> protoField) list \<Rightarrow> string \<Rightarrow> string \<Rightarrow> composer \<Rightarrow> composer"
where
  "visitMessage L config fieldDefs name currentPath sc =
     (let tn = typeName L config name currentPath;
          sc1 = createTC (tn @ ''Input'') (InputTC []) sc;
          sc2 = createTC tn (ObjectTC []) sc1
      in fold (\<lambda>(fieldName, f) s.
                 addTypeField tn fieldName (FieldTypeOf (ptype f) False (prule f))
                   (addTypeField (tn @ ''Input'') fieldName (FieldTypeOf (ptype f) True (prule f)) s))
           fieldDefs sc2)"

definition rootFieldName :: "caselib \<Rightarrow> config \<Rightarrow> string \<Rightarrow> string \<Rightarrow> string \<Rightarrow> string" where
  "rootFieldName L config name currentPath methodName =
     (let r = methodName;
          r = (if name \<noteq> serviceName config then camelCase L (name @ ''_'' @ r) else r);
          r = (if currentPath \<noteq> packageName config
               then camelCase L (str_join ''_'' (str_split CHR ''.'' currentPath) @ ''_'' @ r) else r)
      in r)"

definition rootPingFieldName :: "caselib \<Rightarrow> config \<Rightarrow> string \<Rightarrow> string \<Rightarrow> string" where
  "rootPingFieldName L config name currentPath =
     (let r = ''ping'';
          r = (if name \<noteq> serviceName config then camelCase L (name @ ''_'' @ r) else r);
          r = (if currentPath \<noteq> packageName config
               then camelCase L (str_join ''_'' (str_split CHR ''.'' currentPath) @ ''_'' @ r) else r)
      in r)"

definition fieldConfig :: "protoMethod \<Rightarrow> resolver \<Rightarrow> subscriber option \<Rightarrow> fieldConfig" where
  "fieldConfig method r s =
     \<lparr> ftype = TypeNameOf (responseType method) False,
       args = [(''input'', \<lparr> atype = TypeNameOf (requestType method) True, defaultValue = Obj [] \<rparr>)],
       resolve = r,
       subscribe = s \<rparr>"

text \<open>
  The body of the callback over \<^verbatim>\<open>Object.keys(methods)\<close>. The client is the one made
  for \<^verbatim>\<open>currentPath + '.' + name\<close>.
\<close>

definition addMethodField ::
  "caselib \<Rightarrow> config \<Rightarrow> string \<Rightarrow> string \<Rightarrow> string \<times> protoMethod \<Rightarrow> composer \<Rightarrow> composer"
where
  "addMethodField L config name currentPath m sc =
     (case m of (methodName, method) \<Rightarrow>
        (let fieldName = rootFieldName L config name currentPath methodName;
             client = currentPath @ ''.'' @ name
         in if responseStream method
            then sc\<lparr> Subscription :=
                     AList.update fieldName
                       (fieldConfig method Payload (Some (StreamCall client methodName)))
                       (Subscription sc) \<rparr>
            else (let identifier = toLowerCase methodName
                  in if startsWith identifier ''get''
                     then sc\<lparr> Query :=
                              AList.update fieldName
                                (fieldConfig method (UnaryCall client methodName) None) (Query sc) \<rparr>
                     else sc\<lparr> Mutation :=
                              AList.update fieldName
                                (fieldConfig method (UnaryCall client methodName) None)
                                (Mutation sc) \<rparr>)))"

definition pingField :: fieldConfig where
  "pingField = \<lparr> ftype = Literal ''ServerStatus'', args = [], resolve = OnlineStatus, subscribe = None \<rparr>"

definition addPingField :: "string \<Rightarrow> composer \<Rightarrow> composer" where
  "addPingField fieldName sc = sc\<lparr> Query := AList.update fieldName pingField (Query sc) \<rparr>"

text \<open>
  \<^verbatim>\<open>visit\<close> is an async function. A call runs synchronously up to its first
  \<^verbatim>\<open>await\<close>, and every caller starts the visits of all children (the callbacks of
  \<^verbatim>\<open>map\<close>) before it awaits them. So the whole tree is traversed in one synchronous
  pass, in depth-first key order, which registers the types and the method fields; the
  only code after an \<^verbatim>\<open>await\<close> that writes to the composer is the registration of a
  service's ping field, which runs as a continuation once the pass is over. The
  traversal state is the composer and the list of ping fields whose registration is
  pending. (The client factory is taken to provide a client for every service.)
\<close>

fun visit ::
  "caselib \<Rightarrow> config \<Rightarrow> node \<Rightarrow> string \<Rightarrow> string \<Rightarrow> composer \<times> string list \<Rightarrow> composer \<times> string list"
where
  "visit L config (Node vs fs ms ns) name currentPath (sc, pending) =
     (case vs of
        Some values \<Rightarrow> (visitEnum L config values name currentPath sc, pending)
      | None \<Rightarrow>
     (case fs of
        Some fieldDefs \<Rightarrow> (visitMessage L config fieldDefs name currentPath sc, pending)
      | None \<Rightarrow>
     (case ms of
        Some methods \<Rightarrow>
          (fold (addMethodField L config name currentPath) methods sc,
           pending @ [rootPingFieldName L config name currentPath])
      | None \<Rightarrow>
     (case ns of
        Some nested \<Rightarrow>
          fold (\<lambda>(key, currentNested) st.
                  visit L config currentNested key
                    (if currentPath \<noteq> [] then currentPath @ ''.'' @ name else name) st)
            nested (sc, pending)
      | None \<Rightarrow> (sc, pending)))))"

text \<open>
  \<^verbatim>\<open>await visit(rootNested, '', '')\<close>: the pass, then the pending continuations, here
  in traversal order. They all set the same field value, so which field each name of the
  Query root holds does not depend on the order in which they run.
\<close>

definition awaitVisit :: "caselib \<Rightarrow> config \<Rightarrow> node \<Rightarrow> composer \<Rightarrow> composer" where
  "awaitVisit L config rootNested sc =
     (case visit L config rootNested [] [] (sc, []) of
        (sc', pending) \<Rightarrow> fold addPingField pending sc')"

subsection \<open>\<^verbatim>\<open>getMeshSource\<close>\<close>

text \<open>
  The errors: the two the source raises itself, the \<^verbatim>\<open>TypeError\<close> of reading a property
  (named) of \<^verbatim>\<open>undefined\<close>, and the loader's rejection.
\<close>

datatype error =
  ConfigNotSpecified
  | IncludeDirsNotArray
  | TypeError string
  | LoadRejected

definition initialComposer :: composer where
  "initialComposer =
     createTC ''ServerStatus'' (ObjectTC [(''status'', Literal ''String'')])
       (createTC ''BigInt'' ScalarTC \<lparr> types = [], Query = [], Mutation = [], Subscription = [] \<rparr>)"

definition truthy_dirs :: "dirsValue \<Rightarrow> bool" where
  "truthy_dirs d = (case d of DirsAbsent \<Rightarrow> False | DirsArray _ \<Rightarrow> True | DirsString s \<Rightarrow> s \<noteq> [])"

record meshSource =
  schema :: composer

text \<open>
  From \<^verbatim>\<open>root.load(fileName, options)\<close> to the returned object. The loader (protobufjs)
  is a parameter: it answers with the JSON tree, or rejects. \<^verbatim>\<open>buildSchema\<close> is the
  composer's; the schema returned is the composer's final content.
\<close>

definition loadAndVisit ::
  "caselib \<Rightarrow> (protoFilePath \<Rightarrow> loadOptions \<Rightarrow> node option) \<Rightarrow> config \<Rightarrow> protoFilePath \<Rightarrow> loadOptions
     \<Rightarrow> error + meshSource"
where
  "loadAndVisit L loader config fileName options =
     (case loader fileName options of
        None \<Rightarrow> Inl LoadRejected
      | Some rootNested \<Rightarrow> Inr \<lparr> schema = awaitVisit L config rootNested initialComposer \<rparr>)"

definition getMeshSource ::
  "caselib \<Rightarrow> (protoFilePath \<Rightarrow> loadOptions \<Rightarrow> node option) \<Rightarrow> config option \<Rightarrow> error + meshSource"
where
  "getMeshSource L loader cfg =
     (case cfg of
        None \<Rightarrow> Inl ConfigNotSpecified
      | Some config0 \<Rightarrow>
          (let config = config0\<lparr> requestTimeout :=
                 (case requestTimeout config0 of
                    None \<Rightarrow> Some 200000
                  | Some t \<Rightarrow> if t = 0 then Some 200000 else Some t) \<rparr>
           in case protoFilePath config of
                FilePath p \<Rightarrow> loadAndVisit L loader config (FilePath p) \<lparr> includeDirs = DirsAbsent \<rparr>
              | FileObject f l \<Rightarrow>
                  if f \<noteq> [] then
                    (case l of
                       None \<Rightarrow> Inl (TypeError ''includeDirs'')
                     | Some options \<Rightarrow>
                         if truthy_dirs (includeDirs options) then
                           (case includeDirs options of
                              DirsArray ds \<Rightarrow> loadAndVisit L loader config (FilePath f) options
                            | _ \<Rightarrow> Inl IncludeDirsNotArray)
                         else loadAndVisit L loader config (FilePath f) options)
                  else loadAndVisit L loader config (FileObject f l) \<lparr> includeDirs = DirsAbsent \<rparr>))"

subsection \<open>Evaluating the deferred types\<close>

text \<open>
  The thunks \<^verbatim>\<open>type: () => getTypeName(...)\<close> are called when the schema is built,
  against the composer as it is then. A message field with rule \<^verbatim>\<open>repeated\<close> wraps the
  name in brackets (a template string, so an inherited property is then stringified).
\<close>

fun resolveType :: "caselib \<Rightarrow> config \<Rightarrow> composer \<Rightarrow> typeRef \<Rightarrow> tname" where
  "resolveType L config sc (Literal n) = TypeName n"
| "resolveType L config sc (TypeNameOf typePath isInput) = getTypeName L config sc typePath isInput"
| "resolveType L config sc (FieldTypeOf typePath isInput r) =
     (case getTypeName L config sc typePath isInput of
        TypeName n \<Rightarrow> if r = Some ''repeated'' then TypeName (''['' @ n @ '']'') else TypeName n
      | Inherited k \<Rightarrow> if r = Some ''repeated'' then ListOfInherited k else Inherited k
      | ListOfInherited k \<Rightarrow> ListOfInherited k)"

subsection \<open>The service nodes a traversal reaches\<close>

text \<open>
  The service nodes that \<^verbatim>\<open>visit\<close> processes below a node, each with the name and the
  path it is visited with, in traversal order: the same classification and the same
  recursion as \<^verbatim>\<open>visit\<close>, collecting instead of registering.
\<close>

fun services :: "node \<Rightarrow> string \<Rightarrow> string \<Rightarrow> (string \<times> string \<times> (string \<times> protoMethod) list) list" where
  "services (Node vs fs ms ns) name currentPath =
     (case vs of
        Some values \<Rightarrow> []
      | None \<Rightarrow>
     (case fs of
        Some fieldDefs \<Rightarrow> []
      | None \<Rightarrow>
     (case ms of
        Some methods \<Rightarrow> [(name, currentPath, methods)]
      | None \<Rightarrow>
     (case ns of
        Some nested \<Rightarrow>
          concat (map (\<lambda>(key, currentNested).
                         services currentNested key
                           (if currentPath \<noteq> [] then currentPath @ ''.'' @ name else name))
                      nested)
      | None \<Rightarrow> []))))"

subsection \<open>The streaming binding\<close>

text \<open>
  The source binds a streaming method as
  \<^verbatim>\<open>withCancel(responseStream, () => responseStream.cancel())\<close>. The callback is in the
  source: one call of the stream's \<^verbatim>\<open>cancel\<close>. The stream counts those calls.
\<close>

record grpcStream =
  cancelCalls :: nat

definition cancel :: "grpcStream \<Rightarrow> grpcStream" where
  "cancel s = s\<lparr> cancelCalls := Suc (cancelCalls s) \<rparr>"

definition onCancel :: "grpcStream \<Rightarrow> grpcStream" where
  "onCancel strm = cancel strm"

datatype phase = Idle | Streaming | Cancelled | Errored | Completed

datatype streamEvent = MessageReceived jsvalue | ErrorReceived | EndOfStream | CancelRequested

record subscription =
  phase :: phase
  stream :: grpcStream
  delivered :: "jsvalue list"

text \<open>
  Modelled from the spec: \<^verbatim>\<open>withCancel\<close> of the package @graphql-mesh/utils and the
  asynchronous iteration of the stream, both absent from the sources, as the state
  machine of the spec's design notes. While streaming, a message is delivered, an error
  or the end of the stream terminates the sequence, and a cancellation request runs the
  cancel callback and moves to the cancelled state; in every other state an event
  changes nothing (cancellation is idempotent, nothing is delivered after the end).
  Invocation starts the stream at once.
\<close>

definition withCancel :: "(grpcStream \<Rightarrow> grpcStream) \<Rightarrow> subscription \<Rightarrow> streamEvent \<Rightarrow> subscription" where
  "withCancel cancelFn sub ev =
     (case phase sub of
        Streaming \<Rightarrow>
          (case ev of
             MessageReceived m \<Rightarrow> sub\<lparr> delivered := delivered sub @ [m] \<rparr>
           | ErrorReceived \<Rightarrow> sub\<lparr> phase := Errored \<rparr>
           | EndOfStream \<Rightarrow> sub\<lparr> phase := Completed \<rparr>
           | CancelRequested \<Rightarrow> sub\<lparr> phase := Cancelled, stream := cancelFn (stream sub) \<rparr>)
      | _ \<Rightarrow> sub)"

definition clientMethod :: "grpcStream \<Rightarrow> subscription" where
  "clientMethod strm = \<lparr> phase = Streaming, stream = strm, delivered = [] \<rparr>"

definition deliver :: "streamEvent list \<Rightarrow> subscription \<Rightarrow> subscription" where
  "deliver evs sub = fold (\<lambda>ev s. withCancel onCancel s ev) evs sub"

subsection \<open>Scenarios\<close>

text \<open>
  The configuration of the spec's scenarios: root package \<^verbatim>\<open>com.acme\<close>, primary service
  \<^verbatim>\<open>Greeter\<close>; and a tree with the messages, an enum, the primary service and a second
  service in the nested namespace \<^verbatim>\<open>com.acme.v2\<close>.
\<close>

definition acme :: config where
  "acme = \<lparr> endpoint = ''localhost:50051'', protoFilePath = FilePath ''greeter.proto'',
            serviceName = ''Greeter'', packageName = ''com.acme'', requestTimeout = None \<rparr>"

definition messageNode :: "(string \<times> string) list \<Rightarrow> node" where
  "messageNode fs =
     Node None (Some (map (\<lambda>(n, t). (n, \<lparr> ptype = t, prule = None \<rparr>)) fs)) None None"

definition unary :: "string \<Rightarrow> string \<Rightarrow> protoMethod" where
  "unary req res = \<lparr> requestType = req, responseType = res, responseStream = False \<rparr>"

definition streaming :: "string \<Rightarrow> string \<Rightarrow> protoMethod" where
  "streaming req res = \<lparr> requestType = req, responseType = res, responseStream = True \<rparr>"

definition greeterService :: node where
  "greeterService =
     Node None None
       (Some [(''SayHello'', unary ''HelloRequest'' ''HelloReply''),
              (''GetStatus'', unary ''HelloRequest'' ''StatusReply''),
              (''Watch'', streaming ''HelloRequest'' ''Event'')])
       None"

definition greeter2Service :: node where
  "greeter2Service =
     Node None None (Some [(''SayHello'', unary ''HelloRequest'' ''HelloReply'')]) None"

definition acmeTree :: node where
  "acmeTree =
     Node None None None (Some [(''com'', Node None None None (Some [(''acme'',
       Node None None None (Some
         [(''HelloRequest'', messageNode [(''name'', ''string''), (''color'', ''Color'')]),
          (''HelloReply'', messageNode [(''message'', ''string'')]),
          (''StatusReply'', messageNode [(''status'', ''string'')]),
          (''Event'', messageNode [(''id'', ''int64'')]),
          (''Color'', Node (Some [(''RED'', 0), (''GREEN'', 1)]) None None None),
          (''Greeter'', greeterService),
          (''v2'', Node None None None (Some [(''Greeter2'', greeter2Service)]))]))]))])"

definition acmeSchema :: composer where
  "acmeSchema = awaitVisit change_case acme acmeTree initialComposer"

text \<open>
  A root-package message whose name is not in upper camel case already, and a method
  that refers to it.
\<close>

definition httpTree :: node where
  "httpTree =
     Node None None None (Some [(''com'', Node None None None (Some [(''acme'',
       Node None None None (Some
         [(''HTTPRequest'', messageNode [(''url'', ''string'')]),
          (''Greeter'', Node None None (Some [(''Fetch'', unary ''HTTPRequest'' ''HTTPRequest'')]) None)]))]))])"

definition httpSchema :: composer where
  "httpSchema = awaitVisit change_case acme httpTree initialComposer"

text \<open>
  Configurations whose \<^verbatim>\<open>protoFilePath\<close> is an object without \<^verbatim>\<open>load\<close>, with an empty
  and with a non-empty \<^verbatim>\<open>file\<close>; a loader that answers only when it is called with
  that object itself as file name and with empty load options; and a loader that
  rejects.
\<close>

definition emptyFileConfig :: config where
  "emptyFileConfig = acme\<lparr> protoFilePath := FileObject [] None \<rparr>"

definition noLoadConfig :: config where
  "noLoadConfig = acme\<lparr> protoFilePath := FileObject ''greeter.proto'' None \<rparr>"

definition objectLoader :: "protoFilePath \<Rightarrow> loadOptions \<Rightarrow> node option" where
  "objectLoader fileName options =
     (case (fileName, includeDirs options) of
        (FileObject [] None, DirsAbsent) \<Rightarrow> Some acmeTree
      | _ \<Rightarrow> None)"

definition rejectingLoader :: "protoFilePath \<Rightarrow> loadOptions \<Rightarrow> node option" where
  "rejectingLoader fileName options = None"

text \<open>
  For comparison with the source: the base name as the spec words it, where the root
  package is stripped only when it is a leading prefix of the reference.
\<close>

definition stripLeadingPrefix :: "string \<Rightarrow> string \<Rightarrow> string" where
  "stripLeadingPrefix pre s = (if take (length pre) s = pre then drop (length pre) s else s)"

definition baseTypeName_leading :: "caselib \<Rightarrow> config \<Rightarrow> string \<Rightarrow> string" where
  "baseTypeName_leading L config typePath =
     pascalCase L
       (str_join ''_'' (str_split CHR ''.'' (stripLeadingPrefix (packageName config @ ''.'') typePath)))"

subsection \<open>Properties of the traversal state\<close>

text \<open>The three root field dictionaries of a composer.\<close>

definition roots :: "composer \<Rightarrow> (string \<times> fieldConfig) list \<times> (string \<times> fieldConfig) list \<times> (string \<times> fieldConfig) list" where
  "roots sc = (Query sc, Mutation sc, Subscription sc)"

text \<open>
  Shapes of the fields of a root: every field has a subscribe function and the identity
  on the payload as resolve function; or no field has a subscribe function, and its
  resolve function is not the identity on the payload.
\<close>

definition streamFields :: "(string \<times> fieldConfig) list \<Rightarrow> bool" where
  "streamFields al = (\<forall>k f. map_of al k = Some f \<longrightarrow> subscribe f \<noteq> None \<and> resolve f = Payload)"

definition plainFields :: "(string \<times> fieldConfig) list \<Rightarrow> bool" where
  "plainFields al = (\<forall>k f. map_of al k = Some f \<longrightarrow> subscribe f = None \<and> resolve f \<noteq> Payload)"

text \<open>
  A later composer state keeps the field names of each root and the shapes of the
  fields.
\<close>

definition extends :: "composer \<Rightarrow> composer \<Rightarrow> bool" where
  "extends sc sc' =
     (dom (map_of (Query sc)) \<subseteq> dom (map_of (Query sc'))
      \<and> dom (map_of (Mutation sc)) \<subseteq> dom (map_of (Mutation sc'))
      \<and> dom (map_of (Subscription sc)) \<subseteq> dom (map_of (Subscription sc'))
      \<and> (streamFields (Subscription sc) \<longrightarrow> streamFields (Subscription sc'))
      \<and> (plainFields (Query sc) \<longrightarrow> plainFields (Query sc'))
      \<and> (plainFields (Mutation sc) \<longrightarrow> plainFields (Mutation sc')))"

text \<open>
  The root the callback chooses for a method: \<^verbatim>\<open>method.responseStream\<close>, then
  \<^verbatim>\<open>identifier.startsWith('get')\<close>.
\<close>

definition rootOf :: "string \<Rightarrow> protoMethod \<Rightarrow> composer \<Rightarrow> (string \<times> fieldConfig) list" where
  "rootOf methodName method sc =
     (if responseStream method then Subscription sc
      else if startsWith (toLowerCase methodName) ''get'' then Query sc
      else Mutation sc)"

text \<open>Every method of a service has a field under its name in its root.\<close>

definition placed :: "caselib \<Rightarrow> config \<Rightarrow> composer \<Rightarrow> string \<times> string \<times> (string \<times> protoMethod) list \<Rightarrow> bool" where
  "placed L config sc svc =
     (case svc of (name, currentPath, methods) \<Rightarrow>
        (\<forall>m \<in> set methods.
           rootFieldName L config name currentPath (fst m) \<in> dom (map_of (rootOf (fst m) (snd m) sc))))"

text \<open>
  What a visit does to the traversal state: one pending ping field for every service
  node it reaches, in order; the roots extended; the methods of those services placed.
\<close>

definition visited :: "caselib \<Rightarrow> config \<Rightarrow> node \<Rightarrow> string \<Rightarrow> string \<Rightarrow> composer \<times> string list \<Rightarrow> composer \<times> string list \<Rightarrow> bool" where
  "visited L config nd name currentPath st st' =
     (snd st' = snd st @ map (\<lambda>(n, p, ms). rootPingFieldName L config n p) (services nd name currentPath)
      \<and> extends (fst st) (fst st')
      \<and> (\<forall>svc \<in> set (services nd name currentPath). placed L config (fst st') svc))"

text \<open>The two types of a message are registered under a name.\<close>

definition messageTypes :: "string \<Rightarrow> composer \<Rightarrow> bool" where
  "messageTypes tn sc =
     ((\<exists>fs. map_of (types sc) tn = Some (ObjectTC fs))
      \<and> (\<exists>fs. map_of (types sc) (tn @ ''Input'') = Some (InputTC fs)))"

section \<open>The type-name resolver\<close>

lemma in_SCALARS_keys:
  "map_of SCALARS typePath = Some n \<Longrightarrow> in_SCALARS typePath"
  unfolding in_SCALARS_def by (metis domI dom_map_of_conv_image_fst image_set)

text \<open>
  Claim C5. For every type reference that is one of the six keys of the scalar table
  (int32, int64, float, double, string, bool), \<^verbatim>\<open>getTypeName\<close> returns the name the table
  maps it to, the same in input context and in output context; for int64 that name is
  BigInt in both contexts.
\<close>

theorem scalar_names_ignore_context:
  assumes "typePath \<in> set [''int32'', ''int64'', ''float'', ''double'', ''string'', ''bool'']"
  shows "(\<exists>n. map_of SCALARS typePath = Some n
            \<and> getTypeName L config sc typePath True = TypeName n
            \<and> getTypeName L config sc typePath False = TypeName n)
         \<and> getTypeName L config sc ''int64'' True = TypeName ''BigInt''
         \<and> getTypeName L config sc ''int64'' False = TypeName ''BigInt''"
proof -
  have keys: "map fst SCALARS = [''int32'', ''int64'', ''float'', ''double'', ''string'', ''bool'']"
    by (simp add: SCALARS_def)
  from assms have "typePath \<in> fst ` set SCALARS"
    using keys by (metis image_set)
  then obtain n where n: "map_of SCALARS typePath = Some n"
    by (metis domD dom_map_of_conv_image_fst)
  have "getTypeName L config sc typePath b = TypeName n" for b
    using n in_SCALARS_keys [OF n] by (simp add: getTypeName_def SCALARS_at_def)
  moreover have i64: "map_of SCALARS ''int64'' = Some ''BigInt''"
    by (simp add: SCALARS_def)
  have "getTypeName L config sc ''int64'' b = TypeName ''BigInt''" for b
    using i64 in_SCALARS_keys [OF i64] by (simp add: getTypeName_def SCALARS_at_def)
  ultimately show ?thesis using n by blast
qed

theorem scalar_names_ignore_context_witness:
  "''double'' \<in> set [''int32'', ''int64'', ''float'', ''double'', ''string'', ''bool'']
   \<and> getTypeName change_case acme acmeSchema ''double'' True = TypeName ''Float''
   \<and> getTypeName change_case acme acmeSchema ''double'' False = TypeName ''Float''"
proof -
  have h: "''double'' \<in> set [''int32'', ''int64'', ''float'', ''double'', ''string'', ''bool'']"
    by simp
  have v: "map_of SCALARS ''double'' = Some ''Float''"
    by (simp add: SCALARS_def)
  from scalar_names_ignore_context [OF h, of change_case acme acmeSchema] v h
  show ?thesis by auto
qed


text \<open>Facts of the scenario, used by the witnesses.\<close>

lemma acme_base_HelloRequest: "baseTypeName change_case acme ''HelloRequest'' = ''HelloRequest''"
  by code_simp
lemma acme_base_Color: "baseTypeName change_case acme ''Color'' = ''Color''"
  by code_simp
lemma acme_Color_is_enum: "isEnumType acmeSchema ''Color''"
  by code_simp
lemma acme_HelloRequest_no_enum: "\<not> isEnumType acmeSchema ''HelloRequest''"
  by code_simp
lemma HelloRequest_not_scalar: "\<not> in_SCALARS ''HelloRequest''" by code_simp
lemma Color_not_scalar: "\<not> in_SCALARS ''Color''" by code_simp


lemma str_replace_prefix: "str_replace pat rep (pat @ b) = rep @ b"
proof (cases "pat @ b")
  case Nil
  then show ?thesis by simp
next
  case (Cons c cs)
  have "take (length pat) (c # cs) = pat" and "drop (length pat) (c # cs) = b"
    using Cons by (metis append_eq_conv_conj)+
  then show ?thesis unfolding Cons by simp
qed

lemma str_replace_first_occurrence:
  "(\<forall>i<length a. take (length pat) (drop i (a @ pat @ b)) \<noteq> pat)
     \<Longrightarrow> str_replace pat rep (a @ pat @ b) = a @ rep @ b"
proof (induction a)
  case Nil
  show ?case by (simp add: str_replace_prefix)
next
  case (Cons x a)
  from Cons.prems have head: "take (length pat) (x # a @ pat @ b) \<noteq> pat"
    by (metis drop0 length_greater_0_conv list.discI append_Cons)
  have "\<forall>i<length a. take (length pat) (drop i (a @ pat @ b)) \<noteq> pat"
  proof (intro allI impI)
    fix i assume "i < length a"
    then have "Suc i < length (x # a)" by simp
    with Cons.prems have "take (length pat) (drop (Suc i) ((x # a) @ pat @ b)) \<noteq> pat" by blast
    then show "take (length pat) (drop i (a @ pat @ b)) \<noteq> pat" by simp
  qed
  with Cons.IH have "str_replace pat rep (a @ pat @ b) = a @ rep @ b" by blast
  with head show ?case by simp
qed

lemma str_replace_absent:
  "(\<forall>a b. s \<noteq> a @ pat @ b) \<Longrightarrow> str_replace pat rep s = s"
proof (induction s)
  case Nil
  then have "pat \<noteq> []" by (metis append_Nil)
  then show ?case by simp
next
  case (Cons c cs)
  have head: "take (length pat) (c # cs) \<noteq> pat"
  proof
    assume "take (length pat) (c # cs) = pat"
    then have "c # cs = [] @ pat @ drop (length pat) (c # cs)"
      by (metis append_Nil append_take_drop_id)
    with Cons.prems show False by blast
  qed
  have "\<forall>a b. cs \<noteq> a @ pat @ b"
  proof (intro allI notI)
    fix a b assume "cs = a @ pat @ b"
    then have "c # cs = (c # a) @ pat @ b" by simp
    with Cons.prems show False by blast
  qed
  with Cons.IH have "str_replace pat rep cs = cs" by blast
  with head show ?case by simp
qed




section \<open>The traversal\<close>

lemma extends_refl: "extends sc sc"
  by (simp add: extends_def)

lemma extends_trans: "extends a b \<Longrightarrow> extends b c \<Longrightarrow> extends a c"
  unfolding extends_def by blast

lemma extends_roots: "roots sc = roots sc' \<Longrightarrow> extends sc sc'"
  by (simp add: extends_def roots_def)

lemma dom_rootOf_mono:
  "extends sc sc' \<Longrightarrow> dom (map_of (rootOf mn m sc)) \<subseteq> dom (map_of (rootOf mn m sc'))"
  by (simp add: rootOf_def extends_def)

lemma placed_mono: "placed L config sc svc \<Longrightarrow> extends sc sc' \<Longrightarrow> placed L config sc' svc"
proof -
  assume p: "placed L config sc svc" and e: "extends sc sc'"
  obtain name currentPath methods where svc: "svc = (name, currentPath, methods)"
    by (cases svc)
  show ?thesis
    unfolding placed_def svc
  proof (clarsimp)
    fix mn m assume "(mn, m) \<in> set methods"
    with p have "rootFieldName L config name currentPath mn \<in> dom (map_of (rootOf mn m sc))"
      by (auto simp: placed_def svc)
    with dom_rootOf_mono [OF e, of mn m]
    have "rootFieldName L config name currentPath mn \<in> dom (map_of (rootOf mn m sc'))"
      by blast
    then show "\<exists>y. map_of (rootOf mn m sc') (rootFieldName L config name currentPath mn) = Some y"
      by blast
  qed
qed

lemma roots_createTC: "roots (createTC n tc sc) = roots sc"
  by (simp add: roots_def createTC_def)

lemma roots_addTypeField: "roots (addTypeField n fieldName t sc) = roots sc"
  by (simp add: addTypeField_def roots_createTC split: option.splits typeComposer.splits)

lemma roots_visitEnum: "roots (visitEnum L config vs name currentPath sc) = roots sc"
  by (simp add: visitEnum_def roots_createTC)

lemma roots_fold_fields:
  "roots (fold (\<lambda>(fieldName, f) s.
                 addTypeField tn fieldName (FieldTypeOf (ptype f) False (prule f))
                   (addTypeField tn' fieldName (FieldTypeOf (ptype f) True (prule f)) s))
           fieldDefs sc) = roots sc"
  by (induction fieldDefs arbitrary: sc) (auto simp: roots_addTypeField)

lemma roots_visitMessage: "roots (visitMessage L config fieldDefs name currentPath sc) = roots sc"
  by (simp add: visitMessage_def Let_def roots_fold_fields roots_createTC)

lemma streamFields_update:
  "streamFields al \<Longrightarrow> subscribe f \<noteq> None \<Longrightarrow> resolve f = Payload \<Longrightarrow> streamFields (AList.update k f al)"
  by (simp add: streamFields_def update_conv')

lemma plainFields_update:
  "plainFields al \<Longrightarrow> subscribe f = None \<Longrightarrow> resolve f \<noteq> Payload \<Longrightarrow> plainFields (AList.update k f al)"
  by (simp add: plainFields_def update_conv')

lemma dom_update_mono: "dom (map_of al) \<subseteq> dom (map_of (AList.update k v al))"
  by (auto simp: update_conv')

lemma extends_addMethodField: "extends sc (addMethodField L config name currentPath m sc)"
  unfolding extends_def addMethodField_def Let_def
  by (cases m)
     (auto simp: update_conv' fieldConfig_def intro!: streamFields_update plainFields_update)

lemma placed_addMethodField:
  "rootFieldName L config name currentPath methodName
     \<in> dom (map_of (rootOf methodName method
           (addMethodField L config name currentPath (methodName, method) sc)))"
  by (simp add: addMethodField_def rootOf_def Let_def update_conv')

lemma extends_fold_methods:
  "extends sc (fold (addMethodField L config name currentPath) methods sc)"
proof (induction methods arbitrary: sc)
  case Nil
  show ?case by (simp add: extends_refl)
next
  case (Cons m methods)
  have "extends sc (addMethodField L config name currentPath m sc)"
    by (rule extends_addMethodField)
  moreover have "extends (addMethodField L config name currentPath m sc)
      (fold (addMethodField L config name currentPath) methods (addMethodField L config name currentPath m sc))"
    by (rule Cons.IH)
  ultimately show ?case by (auto intro: extends_trans)
qed

lemma placed_fold_methods:
  "placed L config (fold (addMethodField L config name currentPath) methods sc)
     (name, currentPath, methods)"
proof (induction methods arbitrary: sc)
  case Nil
  show ?case by (simp add: placed_def)
next
  case (Cons m methods)
  let ?sc1 = "addMethodField L config name currentPath m sc"
  let ?sc2 = "fold (addMethodField L config name currentPath) methods ?sc1"
  have ext: "extends ?sc1 ?sc2" by (rule extends_fold_methods)
  have "placed L config ?sc1 (name, currentPath, [m])"
    using placed_addMethodField [of L config name currentPath "fst m" "snd m" sc]
    by (simp add: placed_def)
  then have "placed L config ?sc2 (name, currentPath, [m])"
    using ext by (rule placed_mono)
  moreover have "placed L config ?sc2 (name, currentPath, methods)"
    by (rule Cons.IH)
  ultimately show ?case by (simp add: placed_def)
qed

lemma visited_fold:
  assumes "\<And>key child st. (key, child) \<in> set nested \<Longrightarrow>
             visited L config child key P st (visit L config child key P st)"
  shows "snd (fold (\<lambda>(key, child) st. visit L config child key P st) nested st)
           = snd st @ map (\<lambda>(n, p, ms). rootPingFieldName L config n p)
                        (concat (map (\<lambda>(key, child). services child key P) nested))
         \<and> extends (fst st) (fst (fold (\<lambda>(key, child) st. visit L config child key P st) nested st))
         \<and> (\<forall>svc \<in> set (concat (map (\<lambda>(key, child). services child key P) nested)).
               placed L config (fst (fold (\<lambda>(key, child) st. visit L config child key P st) nested st)) svc)"
  using assms
proof (induction nested arbitrary: st)
  case Nil
  show ?case by (simp add: extends_refl)
next
  case (Cons kc nested)
  obtain key child where kc: "kc = (key, child)" by (cases kc)
  let ?st1 = "visit L config child key P st"
  let ?st2 = "fold (\<lambda>(key, child) st. visit L config child key P st) nested ?st1"
  have v1: "visited L config child key P st ?st1"
    using Cons.prems kc by simp
  have rest: "snd ?st2 = snd ?st1 @ map (\<lambda>(n, p, ms). rootPingFieldName L config n p)
                        (concat (map (\<lambda>(key, child). services child key P) nested))
         \<and> extends (fst ?st1) (fst ?st2)
         \<and> (\<forall>svc \<in> set (concat (map (\<lambda>(key, child). services child key P) nested)).
               placed L config (fst ?st2) svc)"
    by (rule Cons.IH) (simp add: Cons.prems)
  have e: "extends (fst st) (fst ?st2)"
    using v1 rest by (auto simp: visited_def intro: extends_trans)
  have p1: "\<forall>svc \<in> set (services child key P). placed L config (fst ?st2) svc"
    using v1 rest by (auto simp: visited_def intro: placed_mono)
  have s: "snd ?st2 = snd st @ map (\<lambda>(n, p, ms). rootPingFieldName L config n p)
             (services child key P @ concat (map (\<lambda>(key, child). services child key P) nested))"
    using v1 rest by (simp add: visited_def)
  show ?case
    using e p1 s rest by (auto simp: kc)
qed

lemma visited_visit:
  "visited L config nd name currentPath st (visit L config nd name currentPath st)"
proof (induction L config nd name currentPath st rule: visit.induct)
  case (1 L config vs fs ms ns name currentPath sc pending)
  show ?case
  proof (cases vs)
    case (Some enumValues)
    then show ?thesis
      by (simp add: visited_def extends_roots roots_visitEnum [symmetric])
  next
    case vsNone: None
    show ?thesis
    proof (cases fs)
      case (Some fieldDefs)
      then show ?thesis using vsNone
        by (simp add: visited_def extends_roots roots_visitMessage [symmetric])
    next
      case fsNone: None
      show ?thesis
      proof (cases ms)
        case (Some methods)
        then show ?thesis using vsNone fsNone
          by (simp add: visited_def extends_fold_methods placed_fold_methods)
      next
        case msNone: None
        show ?thesis
        proof (cases ns)
          case None
          then show ?thesis using vsNone fsNone msNone
            by (simp add: visited_def extends_refl)
        next
          case (Some nested)
          let ?P = "if currentPath \<noteq> [] then currentPath @ ''.'' @ name else name"
          have ih: "\<And>key child st. (key, child) \<in> set nested \<Longrightarrow>
             visited L config child key ?P st (visit L config child key ?P st)"
            using "1.IH" [OF vsNone fsNone msNone Some] by (metis surj_pair)
          from visited_fold [OF ih, of nested "(sc, pending)"]
          show ?thesis using vsNone fsNone msNone Some
            by (simp add: visited_def)
        qed
      qed
    qed
  qed
qed

lemma map_of_Query_fold_ping:
  "map_of (Query (fold addPingField ps sc)) k =
     (if k \<in> set ps then Some pingField else map_of (Query sc) k)"
  by (induction ps arbitrary: sc) (auto simp: addPingField_def update_conv')

lemma others_fold_ping:
  "Mutation (fold addPingField ps sc) = Mutation sc
   \<and> Subscription (fold addPingField ps sc) = Subscription sc
   \<and> types (fold addPingField ps sc) = types sc"
  by (induction ps arbitrary: sc) (auto simp: addPingField_def)

lemma extends_fold_ping: "extends sc (fold addPingField ps sc)"
  unfolding extends_def
  by (auto simp: others_fold_ping map_of_Query_fold_ping plainFields_def pingField_def dom_def)

lemma awaitVisit_eq:
  "awaitVisit L config rootNested sc =
     fold addPingField (snd (visit L config rootNested [] [] (sc, [])))
       (fst (visit L config rootNested [] [] (sc, [])))"
  by (simp add: awaitVisit_def split: prod.splits)

lemma awaitVisit_extends: "extends sc (awaitVisit L config rootNested sc)"
proof -
  have "extends sc (fst (visit L config rootNested [] [] (sc, [])))"
    using visited_visit [of L config rootNested "[]" "[]" "(sc, [])"] by (simp add: visited_def)
  then show ?thesis
    unfolding awaitVisit_eq by (rule extends_trans) (rule extends_fold_ping)
qed

lemma awaitVisit_placed:
  assumes "svc \<in> set (services rootNested [] [])"
  shows "placed L config (awaitVisit L config rootNested sc) svc"
proof -
  have "placed L config (fst (visit L config rootNested [] [] (sc, []))) svc"
    using visited_visit [of L config rootNested "[]" "[]" "(sc, [])"] assms
    by (simp add: visited_def)
  then show ?thesis
    unfolding awaitVisit_eq by (rule placed_mono) (rule extends_fold_ping)
qed

lemma initial_roots:
  "Query initialComposer = [] \<and> Mutation initialComposer = [] \<and> Subscription initialComposer = []"
  by (simp add: initialComposer_def createTC_def)

lemma final_invariants:
  "streamFields (Subscription (awaitVisit L config rootNested initialComposer))
   \<and> plainFields (Query (awaitVisit L config rootNested initialComposer))
   \<and> plainFields (Mutation (awaitVisit L config rootNested initialComposer))"
  using awaitVisit_extends [of initialComposer L config rootNested]
  by (simp add: extends_def initial_roots streamFields_def plainFields_def)

lemma step_fields:
  "(\<not> responseStream method \<and> startsWith (toLowerCase methodName) ''get'' \<longrightarrow>
       map_of (Query (addMethodField L config name currentPath (methodName, method) sc))
           (rootFieldName L config name currentPath methodName)
         = Some (fieldConfig method (UnaryCall (currentPath @ ''.'' @ name) methodName) None)
       \<and> Mutation (addMethodField L config name currentPath (methodName, method) sc) = Mutation sc
       \<and> Subscription (addMethodField L config name currentPath (methodName, method) sc) = Subscription sc)
   \<and> (\<not> responseStream method \<and> \<not> startsWith (toLowerCase methodName) ''get'' \<longrightarrow>
       map_of (Mutation (addMethodField L config name currentPath (methodName, method) sc))
           (rootFieldName L config name currentPath methodName)
         = Some (fieldConfig method (UnaryCall (currentPath @ ''.'' @ name) methodName) None)
       \<and> Query (addMethodField L config name currentPath (methodName, method) sc) = Query sc
       \<and> Subscription (addMethodField L config name currentPath (methodName, method) sc) = Subscription sc)
   \<and> (responseStream method \<longrightarrow>
       map_of (Subscription (addMethodField L config name currentPath (methodName, method) sc))
           (rootFieldName L config name currentPath methodName)
         = Some (fieldConfig method Payload (Some (StreamCall (currentPath @ ''.'' @ name) methodName)))
       \<and> Query (addMethodField L config name currentPath (methodName, method) sc) = Query sc
       \<and> Mutation (addMethodField L config name currentPath (methodName, method) sc) = Mutation sc)"
  by (simp add: addMethodField_def Let_def update_conv')

lemma final_fields:
  assumes svc: "(name, currentPath, methods) \<in> set (services rootNested [] [])"
    and m: "(methodName, method) \<in> set methods"
  shows "\<exists>f. map_of (rootOf methodName method (awaitVisit L config rootNested initialComposer))
                (rootFieldName L config name currentPath methodName) = Some f
             \<and> (responseStream method \<longrightarrow> subscribe f \<noteq> None \<and> resolve f = Payload)
             \<and> (\<not> responseStream method \<longrightarrow> subscribe f = None \<and> resolve f \<noteq> Payload)"
proof -
  let ?final = "awaitVisit L config rootNested initialComposer"
  from awaitVisit_placed [OF svc, of L config initialComposer] m
  have "rootFieldName L config name currentPath methodName
          \<in> dom (map_of (rootOf methodName method ?final))"
    by (auto simp: placed_def)
  then obtain f where f: "map_of (rootOf methodName method ?final)
                (rootFieldName L config name currentPath methodName) = Some f"
    by blast
  have inv: "streamFields (Subscription ?final) \<and> plainFields (Query ?final) \<and> plainFields (Mutation ?final)"
    by (rule final_invariants)
  have "responseStream method \<longrightarrow> subscribe f \<noteq> None \<and> resolve f = Payload"
    using f inv unfolding rootOf_def streamFields_def by auto
  moreover have "\<not> responseStream method \<longrightarrow> subscribe f = None \<and> resolve f \<noteq> Payload"
    using f inv unfolding rootOf_def plainFields_def by (auto split: if_splits)
  ultimately show ?thesis using f by blast
qed

lemma final_ping:
  assumes svc: "(name, currentPath, methods) \<in> set (services rootNested [] [])"
  shows "map_of (Query (awaitVisit L config rootNested sc)) (rootPingFieldName L config name currentPath)
           = Some pingField"
proof -
  have "snd (visit L config rootNested [] [] (sc, []))
          = map (\<lambda>(n, p, ms). rootPingFieldName L config n p) (services rootNested [] [])"
    using visited_visit [of L config rootNested "[]" "[]" "(sc, [])"] by (simp add: visited_def)
  moreover have "rootPingFieldName L config name currentPath
     \<in> set (map (\<lambda>(n, p, ms). rootPingFieldName L config n p) (services rootNested [] []))"
    using svc by force
  ultimately show ?thesis
    by (simp add: awaitVisit_eq map_of_Query_fold_ping)
qed


lemma acme_services:
  "services acmeTree [] [] =
     [(''Greeter'', ''com.acme'',
        [(''SayHello'', unary ''HelloRequest'' ''HelloReply''),
         (''GetStatus'', unary ''HelloRequest'' ''StatusReply''),
         (''Watch'', streaming ''HelloRequest'' ''Event'')]),
      (''Greeter2'', ''com.acme.v2'', [(''SayHello'', unary ''HelloRequest'' ''HelloReply'')])]"
  by (simp add: acmeTree_def greeterService_def greeter2Service_def messageNode_def)

lemma acme_root_names:
  "rootFieldName change_case acme ''Greeter'' ''com.acme'' methodName = methodName"
  by (simp add: rootFieldName_def acme_def)

lemma acme_get: "startsWith (toLowerCase ''GetStatus'') ''get''"
  by code_simp

lemma acme_no_get: "\<not> startsWith (toLowerCase ''SayHello'') ''get''"
  by code_simp


text \<open>
  The registrations pending after the traversal all set the same field, so the fields
  of the Query root do not depend on the order in which the continuations run.
\<close>

lemma ping_order_irrelevant:
  "set ps = set qs \<Longrightarrow>
   map_of (Query (fold addPingField ps sc)) = map_of (Query (fold addPingField qs sc))"
  by (rule ext) (simp add: map_of_Query_fold_ping)


lemma acme_ping_names:
  "rootPingFieldName change_case acme ''Greeter'' ''com.acme'' = ''ping''
   \<and> rootPingFieldName change_case acme ''Greeter2'' ''com.acme.v2'' = ''comAcmeV2Greeter2Ping''"
  by code_simp


section \<open>Names of types and of root fields\<close>

lemma messageTypes_addTypeField:
  "messageTypes tn sc \<Longrightarrow> messageTypes tn (addTypeField n fieldName t sc)"
  unfolding messageTypes_def addTypeField_def createTC_def
  by (auto simp: update_conv' split: option.splits typeComposer.splits)

lemma messageTypes_fold:
  "messageTypes tn sc \<Longrightarrow>
   messageTypes tn (fold (\<lambda>(fieldName, f) s.
                 addTypeField tn fieldName (FieldTypeOf (ptype f) False (prule f))
                   (addTypeField (tn @ ''Input'') fieldName (FieldTypeOf (ptype f) True (prule f)) s))
           fieldDefs sc)"
  by (induction fieldDefs arbitrary: sc) (auto intro: messageTypes_addTypeField)

lemma messageTypes_visitMessage:
  "messageTypes (typeName L config name currentPath)
     (visitMessage L config fieldDefs name currentPath sc)"
  unfolding visitMessage_def Let_def
  by (rule messageTypes_fold) (simp add: messageTypes_def createTC_def update_conv')



text \<open>
  Claim C2, as amended. With package com.acme and primary service Greeter, the unary
  method SayHello(HelloRequest) returning HelloReply yields a field under the Mutation
  root whose name is the declared method name unchanged, SayHello (a method of the
  primary service at the root package keeps its name, for any configuration), with the
  single argument input of type HelloRequestInput and the output type HelloReply.
\<close>

theorem primary_method_keeps_its_name:
  "rootFieldName L config (serviceName config) (packageName config) methodName = methodName
   \<and> map_of (Mutation acmeSchema) ''SayHello''
       = Some (fieldConfig (unary ''HelloRequest'' ''HelloReply'')
                 (UnaryCall ''com.acme.Greeter'' ''SayHello'') None)
   \<and> args (fieldConfig (unary ''HelloRequest'' ''HelloReply'')
              (UnaryCall ''com.acme.Greeter'' ''SayHello'') None)
       = [(''input'', \<lparr> atype = TypeNameOf ''HelloRequest'' True, defaultValue = Obj [] \<rparr>)]
   \<and> resolveType change_case acme acmeSchema (TypeNameOf ''HelloRequest'' True)
       = TypeName ''HelloRequestInput''
   \<and> resolveType change_case acme acmeSchema
        (ftype (fieldConfig (unary ''HelloRequest'' ''HelloReply'')
                  (UnaryCall ''com.acme.Greeter'' ''SayHello'') None))
       = TypeName ''HelloReply''"
proof (intro conjI)
  show "rootFieldName L config (serviceName config) (packageName config) methodName = methodName"
    by (simp add: rootFieldName_def)
  show "map_of (Mutation acmeSchema) ''SayHello''
       = Some (fieldConfig (unary ''HelloRequest'' ''HelloReply'')
                 (UnaryCall ''com.acme.Greeter'' ''SayHello'') None)"
    by code_simp
  show "args (fieldConfig (unary ''HelloRequest'' ''HelloReply'')
              (UnaryCall ''com.acme.Greeter'' ''SayHello'') None)
       = [(''input'', \<lparr> atype = TypeNameOf ''HelloRequest'' True, defaultValue = Obj [] \<rparr>)]"
    by (simp add: fieldConfig_def unary_def)
  show "resolveType change_case acme acmeSchema (TypeNameOf ''HelloRequest'' True)
       = TypeName ''HelloRequestInput''"
    by code_simp
  show "resolveType change_case acme acmeSchema
        (ftype (fieldConfig (unary ''HelloRequest'' ''HelloReply'')
                  (UnaryCall ''com.acme.Greeter'' ''SayHello'') None))
       = TypeName ''HelloReply''"
    by code_simp
qed

text \<open>
  Claim C2 as stated fails: no root has a field named sayHello; the field is SayHello.
\<close>

theorem lower_camel_sayHello_counterexample:
  "rootFieldName change_case acme ''Greeter'' ''com.acme'' ''SayHello'' = ''SayHello''
   \<and> map_of (Mutation acmeSchema) ''sayHello'' = None
   \<and> map_of (Query acmeSchema) ''sayHello'' = None
   \<and> map_of (Subscription acmeSchema) ''sayHello'' = None"
  by code_simp

text \<open>
  Claim C7, as amended. For a service that is not the primary one, in a namespace that
  is not the root package, the root field name is the lower camel case of the whole
  namespace path joined by underscores, an underscore, and the lower camel case of the
  service name, an underscore and the method name. For Greeter2 in com.acme.v2 under the
  root package com.acme the method SayHello becomes greeter2SayHello and then
  comAcmeV2Greeter2SayHello, a field of the Mutation root beside the primary service's
  SayHello.
\<close>

theorem nested_service_field_name:
  "(name \<noteq> serviceName config \<and> currentPath \<noteq> packageName config \<longrightarrow>
      rootFieldName L config name currentPath methodName
        = camelCase L (str_join ''_'' (str_split CHR ''.'' currentPath) @ ''_''
                        @ camelCase L (name @ ''_'' @ methodName)))
   \<and> camelCase change_case (''Greeter2'' @ ''_'' @ ''SayHello'') = ''greeter2SayHello''
   \<and> str_join ''_'' (str_split CHR ''.'' ''com.acme.v2'') = ''com_acme_v2''
   \<and> camelCase change_case (''com_acme_v2'' @ ''_'' @ ''greeter2SayHello'') = ''comAcmeV2Greeter2SayHello''
   \<and> rootFieldName change_case acme ''Greeter'' ''com.acme'' ''SayHello'' = ''SayHello''
   \<and> map_of (Mutation acmeSchema) ''comAcmeV2Greeter2SayHello''
       = Some (fieldConfig (unary ''HelloRequest'' ''HelloReply'')
                 (UnaryCall ''com.acme.v2.Greeter2'' ''SayHello'') None)
   \<and> map_of (Mutation acmeSchema) ''SayHello''
       = Some (fieldConfig (unary ''HelloRequest'' ''HelloReply'')
                 (UnaryCall ''com.acme.Greeter'' ''SayHello'') None)"
proof (intro conjI)
  show "name \<noteq> serviceName config \<and> currentPath \<noteq> packageName config \<longrightarrow>
      rootFieldName L config name currentPath methodName
        = camelCase L (str_join ''_'' (str_split CHR ''.'' currentPath) @ ''_''
                        @ camelCase L (name @ ''_'' @ methodName))"
    by (simp add: rootFieldName_def)
qed code_simp+

theorem nested_service_field_name_witness:
  "''Greeter2'' \<noteq> serviceName acme \<and> ''com.acme.v2'' \<noteq> packageName acme
   \<and> rootFieldName change_case acme ''Greeter2'' ''com.acme.v2'' ''SayHello'' = ''comAcmeV2Greeter2SayHello''"
proof -
  have h: "''Greeter2'' \<noteq> serviceName acme \<and> ''com.acme.v2'' \<noteq> packageName acme"
    by (simp add: acme_def)
  from nested_service_field_name
         [where L = change_case and config = acme and name = "''Greeter2''"
            and currentPath = "''com.acme.v2''" and methodName = "''SayHello''"]
  have "rootFieldName change_case acme ''Greeter2'' ''com.acme.v2'' ''SayHello''
        = camelCase change_case (str_join ''_'' (str_split CHR ''.'' ''com.acme.v2'') @ ''_''
                        @ camelCase change_case (''Greeter2'' @ ''_'' @ ''SayHello''))"
    and "camelCase change_case (''Greeter2'' @ ''_'' @ ''SayHello'') = ''greeter2SayHello''"
    and "str_join ''_'' (str_split CHR ''.'' ''com.acme.v2'') = ''com_acme_v2''"
    and "camelCase change_case (''com_acme_v2'' @ ''_'' @ ''greeter2SayHello'') = ''comAcmeV2Greeter2SayHello''"
    using h by blast+
  then have "rootFieldName change_case acme ''Greeter2'' ''com.acme.v2'' ''SayHello'' = ''comAcmeV2Greeter2SayHello''"
    by simp
  with h show ?thesis by blast
qed

text \<open>
  Claim C7 as stated fails: the name is comAcmeV2Greeter2SayHello, with the root
  package's segments and without underscores, and no field is named
  acmeV2_greeter2_sayHello.
\<close>

theorem underscored_field_name_counterexample:
  "rootFieldName change_case acme ''Greeter2'' ''com.acme.v2'' ''SayHello'' = ''comAcmeV2Greeter2SayHello''
   \<and> rootFieldName change_case acme ''Greeter2'' ''com.acme.v2'' ''SayHello'' \<noteq> ''acmeV2_greeter2_sayHello''
   \<and> map_of (Mutation acmeSchema) ''acmeV2_greeter2_sayHello'' = None"
  by code_simp

section \<open>Cancelling a subscription\<close>

lemma deliver_ended: "phase sub \<noteq> Streaming \<Longrightarrow> deliver evs sub = sub"
proof (induction evs)
  case Nil
  show ?case by (simp add: deliver_def)
next
  case (Cons ev evs)
  have "withCancel onCancel sub ev = sub"
    using Cons.prems by (cases "phase sub") (simp_all add: withCancel_def)
  then have "deliver (ev # evs) sub = deliver evs sub"
    by (simp add: deliver_def)
  with Cons show ?case by simp
qed



section \<open>The configuration checks of \<^verbatim>\<open>getMeshSource\<close>\<close>

text \<open>
  Claim C10, as amended. For every configuration whose \<^verbatim>\<open>protoFilePath\<close> is an object with
  a non-empty \<^verbatim>\<open>file\<close> and no \<^verbatim>\<open>load\<close>, \<^verbatim>\<open>getMeshSource\<close> fails with the TypeError of
  reading \<^verbatim>\<open>includeDirs\<close> of undefined, whatever the loader would answer: the loader is
  not reached, and the error is neither of the two configuration errors.
\<close>

theorem missing_load_is_a_TypeError:
  assumes "protoFilePath config = FileObject f None" and "f \<noteq> []"
  shows "getMeshSource L loader (Some config) = Inl (TypeError ''includeDirs'')"
  using assms by (simp add: getMeshSource_def Let_def)

theorem missing_load_is_a_TypeError_witness:
  "protoFilePath noLoadConfig = FileObject ''greeter.proto'' None \<and> ''greeter.proto'' \<noteq> []
   \<and> getMeshSource change_case objectLoader (Some noLoadConfig) = Inl (TypeError ''includeDirs'')"
proof -
  have h1: "protoFilePath noLoadConfig = FileObject ''greeter.proto'' None"
    by (simp add: noLoadConfig_def)
  have h2: "''greeter.proto'' \<noteq> []" by simp
  from missing_load_is_a_TypeError [OF h1 h2, of change_case objectLoader] h1 h2
  show ?thesis by blast
qed

text \<open>
  Claim C10 as stated fails: with \<^verbatim>\<open>file\<close> the empty string and no \<^verbatim>\<open>load\<close>, the guard
  \<^verbatim>\<open>config.protoFilePath.file\<close> is false, \<^verbatim>\<open>load\<close> is never read, and the loader is called
  with the object itself and empty load options; the outcome is the loader's.
\<close>

theorem empty_file_without_load_counterexample:
  "protoFilePath emptyFileConfig = FileObject [] None
   \<and> getMeshSource change_case objectLoader (Some emptyFileConfig)
       = Inr \<lparr> schema = awaitVisit change_case (emptyFileConfig\<lparr> requestTimeout := Some 200000 \<rparr>)
                          acmeTree initialComposer \<rparr>
   \<and> getMeshSource change_case objectLoader (Some emptyFileConfig) \<noteq> Inl (TypeError ''includeDirs'')
   \<and> getMeshSource change_case rejectingLoader (Some emptyFileConfig) = Inl LoadRejected"
  by (simp add: getMeshSource_def Let_def emptyFileConfig_def acme_def loadAndVisit_def
        objectLoader_def rejectingLoader_def)

end
